theory Spec2Isabelle
  imports Complex_Main "HOL-Library.Sublist" "HOL-Library.AList"
begin

section \<open>Adaptive traffic signal simulation: a shallow embedding\<close>

text \<open>
  Python's unbounded integers are \<^typ>\<open>int\<close>. Python's floats (durations, rewards,
  weights, Q-values) are the mathematical reals \<^typ>\<open>real\<close>: rounding, overflow and the
  special values of IEEE arithmetic are not part of this model. Strings such as the phase
  labels stay strings, so that a label other than \<open>''NS''\<close> or \<open>''EW''\<close> remains
  expressible. The dictionaries passed between components have a fixed set of keys and
  are records; a key that may be absent (\<open>target_phase\<close>, \<open>explanation\<close>) is an option.
\<close>

subsection \<open>simulation/intersection.py\<close>

record Intersection =
  intersection_id :: int
  service_rate :: int
  queue_ns :: int
  queue_ew :: int
  phase :: string

text \<open>One entry of the arrival stream (the \<open>arrivals\<close> dictionary).\<close>

record Arrivals =
  arr_step :: int
  arr_time_of_day :: string
  arrivals_ns :: int
  arrivals_ew :: int
  arr_emergency :: bool

text \<open>A controller's decision; \<open>None\<close> is a key that is not in the dictionary.\<close>

record Decision =
  duration :: real
  target_phase :: "string option"
  explanation :: "string option"

record LogRecord =
  log_step :: int
  log_intersection :: int
  log_time_of_day :: string
  phase_used :: string
  log_duration :: real
  log_queue_ns :: int
  log_queue_ew :: int
  served_ns :: int
  served_ew :: int
  throughput :: int
  avg_wait_proxy :: real
  stops :: int
  log_emergency :: bool
  log_explanation :: string

text \<open>\<open>__post_init__\<close>: empty queues, north-south has green.\<close>

definition Intersection_init :: "int \<Rightarrow> int \<Rightarrow> Intersection" where
  "Intersection_init i rate =
     \<lparr>intersection_id = i, service_rate = rate, queue_ns = 0, queue_ew = 0, phase = ''NS''\<rparr>"

text \<open>Python's \<open>int(x)\<close> on a float: truncation toward zero.\<close>

definition py_int :: "real \<Rightarrow> int" where
  "py_int x = (if 0 \<le> x then \<lfloor>x\<rfloor> else \<lceil>x\<rceil>)"

definition override_note :: string where
  "override_note = ''Emergency override: granted immediate green to priority approach.''"

definition apply_emergency :: "bool \<Rightarrow> Intersection \<Rightarrow> (bool \<times> string) \<times> Intersection" where
  "apply_emergency emergency self =
     (if \<not> emergency then ((False, []), self)
      else ((True, override_note),
            self\<lparr>phase := (if queue_ns self \<ge> queue_ew self then ''NS'' else ''EW'')\<rparr>))"

definition Intersection_step ::
  "Arrivals \<Rightarrow> Decision \<Rightarrow> Intersection \<Rightarrow> (LogRecord \<times> real) \<times> Intersection" where
  "Intersection_step arrivals decision self0 =
     (let self1 = self0\<lparr>queue_ns := queue_ns self0 + arrivals_ns arrivals,
                        queue_ew := queue_ew self0 + arrivals_ew arrivals\<rparr>;
          emergency = arr_emergency arrivals;
          ((overridden, override_msg), self2) = apply_emergency emergency self1;
          dur = (if \<not> overridden then duration decision else max 5 (duration decision));
          used = (if target_phase decision \<noteq> None \<and> \<not> overridden
                  then the (target_phase decision) else phase self2);
          capacity = py_int (real_of_int (service_rate self2) * dur);
          s_ns = (if used = ''NS'' then min (queue_ns self2) capacity else 0);
          s_ew = (if used = ''NS'' then 0 else min (queue_ew self2) capacity);
          st = (if used = ''NS'' then queue_ew self2 else queue_ns self2);
          self3 = (if used = ''NS'' then self2\<lparr>queue_ns := queue_ns self2 - s_ns\<rparr>
                   else self2\<lparr>queue_ew := queue_ew self2 - s_ew\<rparr>);
          thr = s_ns + s_ew;
          avg_wait = (if queue_ns self3 + queue_ew self3 \<noteq> 0
                      then real_of_int (queue_ns self3 + queue_ew self3) / 2 else 0);
          expl0 = (case explanation decision of None \<Rightarrow> [] | Some e \<Rightarrow> e);
          expl = (if override_msg \<noteq> [] then expl0 @ '' | '' @ override_msg else expl0);
          self4 = (if target_phase decision \<noteq> None then self3\<lparr>phase := used\<rparr>
                   else if \<not> emergency
                   then self3\<lparr>phase := (if phase self3 = ''NS'' then ''EW'' else ''NS'')\<rparr>
                   else self3);
          row = \<lparr>log_step = arr_step arrivals,
                 log_intersection = intersection_id self4,
                 log_time_of_day = arr_time_of_day arrivals,
                 phase_used = used,
                 log_duration = dur,
                 log_queue_ns = queue_ns self4,
                 log_queue_ew = queue_ew self4,
                 served_ns = s_ns,
                 served_ew = s_ew,
                 throughput = thr,
                 avg_wait_proxy = avg_wait,
                 stops = st,
                 log_emergency = emergency,
                 log_explanation = expl\<rparr>;
          reward = real_of_int thr - avg_wait - 0.3 * real_of_int st
      in ((row, reward), self4))"

text \<open>The post-arrival state: the queues after lines 34-35 of the step.\<close>

definition after_arrivals :: "Arrivals \<Rightarrow> Intersection \<Rightarrow> Intersection" where
  "after_arrivals arrivals self =
     self\<lparr>queue_ns := queue_ns self + arrivals_ns arrivals,
          queue_ew := queue_ew self + arrivals_ew arrivals\<rparr>"

text \<open>\<open>observe_state\<close>: the snapshot handed to a controller.\<close>

record State =
  st_intersection :: int
  st_queue_ns :: int
  st_queue_ew :: int
  st_phase :: string
  st_time_of_day :: string
  st_emergency :: bool

definition observe_state :: "string \<Rightarrow> bool \<Rightarrow> Intersection \<Rightarrow> State" where
  "observe_state tod emergency self =
     \<lparr>st_intersection = intersection_id self, st_queue_ns = queue_ns self,
      st_queue_ew = queue_ew self, st_phase = phase self, st_time_of_day = tod,
      st_emergency = emergency\<rparr>"

text \<open>The invariant of the data model: no negative queue, one of the two phase labels.\<close>

definition Intersection_inv :: "Intersection \<Rightarrow> bool" where
  "Intersection_inv self \<longleftrightarrow>
     0 \<le> queue_ns self \<and> 0 \<le> queue_ew self \<and> (phase self = ''NS'' \<or> phase self = ''EW'')"

subsection \<open>simulation/multi\_intersection.py\<close>

record MultiIntersectionNetwork =
  intersections :: "Intersection list"
  controller_name :: string

definition MultiIntersectionNetwork_init :: "int \<Rightarrow> string \<Rightarrow> int \<Rightarrow> MultiIntersectionNetwork" where
  "MultiIntersectionNetwork_init n name rate =
     \<lparr>intersections = map (\<lambda>i. Intersection_init (int i) rate) [0..<nat n],
      controller_name = name\<rparr>"

text \<open>First loop of \<open>step\<close>, one iteration: \<open>arrivals[i]["arrivals_ns"] += downstream_inflows[i]\<close>.\<close>

definition add_inflow :: "int list \<Rightarrow> nat \<Rightarrow> Arrivals list \<Rightarrow> Arrivals list" where
  "add_inflow inflows i arrivals =
     arrivals[i := (arrivals ! i)\<lparr>arrivals_ns := arrivals_ns (arrivals ! i) + inflows ! i\<rparr>]"

text \<open>
  Second loop of \<open>step\<close>, one iteration. The loop state is the list of intersections, the
  logs, the rewards dictionary and the local list \<open>downstream_inflows\<close>.
\<close>

type_synonym network_loop_state =
  "Intersection list \<times> LogRecord list \<times> (nat \<rightharpoonup> real) \<times> int list"

definition network_iter ::
  "Arrivals list \<Rightarrow> Decision list \<Rightarrow> nat \<Rightarrow> network_loop_state \<Rightarrow> network_loop_state" where
  "network_iter arrivals decisions i st =
     (case st of (inters, logs, rewards, inflows) \<Rightarrow>
        (case Intersection_step (arrivals ! i) (decisions ! i) (inters ! i) of
           ((row, reward), isec) \<Rightarrow>
             (inters[i := isec], logs @ [row], rewards(i \<mapsto> reward),
              (if i + 1 < length inters
               then inflows[i + 1 := inflows ! (i + 1) + py_int (0.6 * real_of_int (throughput row))]
               else inflows))))"

definition network_loop ::
  "Arrivals list \<Rightarrow> Decision list \<Rightarrow> Intersection list \<Rightarrow> network_loop_state" where
  "network_loop arrivals decisions inters =
     (let n = length inters;
          downstream_inflows = replicate n 0;
          arrivals1 = fold (add_inflow downstream_inflows) [0..<n] arrivals
      in fold (network_iter arrivals1 decisions) [0..<n]
           (inters, [], Map.empty, downstream_inflows))"

text \<open>
  \<open>MultiIntersectionNetwork.step\<close>. A list of arrivals or decisions shorter than the
  network raises IndexError, which is \<open>None\<close>. The local \<open>downstream_inflows\<close> is dropped
  on return.
\<close>

definition Network_step ::
  "Arrivals list \<Rightarrow> Decision list \<Rightarrow> MultiIntersectionNetwork \<Rightarrow>
   ((LogRecord list \<times> (nat \<rightharpoonup> real)) \<times> MultiIntersectionNetwork) option" where
  "Network_step arrivals decisions net =
     (if length arrivals < length (intersections net)
         \<or> length decisions < length (intersections net) then None
      else (case network_loop arrivals decisions (intersections net) of
              (inters, logs, rewards, inflows) \<Rightarrow>
                Some ((logs, rewards), net\<lparr>intersections := inters\<rparr>)))"

subsection \<open>Rendering values in f-strings\<close>

fun str_nat :: "nat \<Rightarrow> string" where
  "str_nat n = (if n < 10 then [char_of (48 + n)]
                else str_nat (n div 10) @ [char_of (48 + n mod 10)])"

definition str_int :: "int \<Rightarrow> string" where
  "str_int i = (if i < 0 then ''-'' @ str_nat (nat (- i)) else str_nat (nat i))"

definition str_bool :: "bool \<Rightarrow> string" where
  "str_bool b = (if b then ''True'' else ''False'')"

subsection \<open>models/rl\_controller.py\<close>

type_synonym state_key = "string \<times> string \<times> string \<times> string \<times> string \<times> string \<times> bool"

text \<open>
  The Q-table maps a state key to a dictionary from action to value; the inner dictionary
  is an association list in insertion order, which is the order \<open>max\<close> breaks ties in.
  \<open>last_decision\<close> holds the attributes \<open>last_key\<close> and \<open>last_action\<close>, which \<open>decide\<close>
  creates together; \<open>None\<close> means they do not exist yet. \<open>last_queues\<close> is the pair of the
  entries \<open>ns\<close> and \<open>ew\<close>. The random generator is not part of the state: each draw is an
  argument of \<open>decide\<close>.
\<close>

record QLearningController =
  actions :: "int list"
  alpha :: real
  gamma :: real
  epsilon :: real
  epsilon_min :: real
  epsilon_decay :: real
  step_count :: int
  q :: "state_key \<rightharpoonup> (int \<times> real) list"
  last_decision :: "(state_key \<times> int) option"
  last_queues :: "int \<times> int"



definition bucket :: "int \<Rightarrow> string" where
  "bucket x = (if x < 4 then ''low'' else if x < 10 then ''med'' else ''high'')"

definition state_key :: "State \<Rightarrow> QLearningController \<Rightarrow> state_key" where
  "state_key state self =
     (let q_ns = st_queue_ns state;
          q_ew = st_queue_ew state;
          delta_ns = q_ns - fst (last_queues self);
          delta_ew = q_ew - snd (last_queues self)
      in (bucket q_ns, bucket q_ew,
          (if delta_ns > 0 then ''ns_growing'' else ''ns_stable''),
          (if delta_ew > 0 then ''ew_growing'' else ''ew_stable''),
          st_phase state, st_time_of_day state, st_emergency state))"

text \<open>The dictionary comprehension \<open>{a: 5.0 if a == 12 else 2.0 for a in self.actions}\<close>.\<close>

definition optimistic_table :: "int list \<Rightarrow> (int \<times> real) list" where
  "optimistic_table acts =
     fold (\<lambda>a d. AList.update a (if a = 12 then 5 else 2) d) acts []"

definition ensure_state :: "state_key \<Rightarrow> QLearningController \<Rightarrow> QLearningController" where
  "ensure_state key self =
     (if q self key = None then self\<lparr>q := (q self)(key \<mapsto> optimistic_table (actions self))\<rparr>
      else self)"



text \<open>\<open>max(d.values())\<close>; ValueError (\<open>None\<close>) on an empty dictionary.\<close>

fun max_value :: "(int \<times> real) list \<Rightarrow> real option" where
  "max_value [] = None"
| "max_value ((a, v) # xs) = Some (fold (\<lambda>(a', v') m. max m v') xs v)"


text \<open>
  \<open>learn\<close>. A missing key or action raises KeyError, an empty value table ValueError;
  both are \<open>None\<close>.
\<close>

definition QL_learn ::
  "State \<Rightarrow> real \<Rightarrow> State \<Rightarrow> QLearningController \<Rightarrow> QLearningController option" where
  "QL_learn state reward next_state self0 =
     (case last_decision self0 of None \<Rightarrow> Some self0
      | Some (key, action) \<Rightarrow>
          (let next_key = state_key next_state self0;
               self1 = ensure_state next_key self0
           in case q self1 key of None \<Rightarrow> None
              | Some tbl \<Rightarrow>
                  (case map_of tbl action of None \<Rightarrow> None
                   | Some old_value \<Rightarrow>
                       (case max_value (the (q self1 next_key)) of None \<Rightarrow> None
                        | Some next_best \<Rightarrow>
                            (let updated = old_value
                                   + alpha self1 * (reward + gamma self1 * next_best - old_value)
                             in Some (self1\<lparr>q := (q self1)(key \<mapsto> AList.update action updated tbl)\<rparr>))))))"

subsection \<open>models/neural\_controller.py\<close>

text \<open>One entry of \<open>memory\<close>: the dictionary with the keys \<open>features\<close> and \<open>pred_norm\<close>.\<close>

record Transition =
  features :: "real list"
  pred_norm :: real

record NeuralController =
  input_size :: nat
  hidden_size :: nat
  lr :: real
  memory :: "Transition list"
  w1 :: "real list list"
  b1 :: "real list"
  w2 :: "real list"
  b2 :: real

text \<open>
  The dataclass constructor with \<open>__post_init__\<close>. \<open>draw k\<close> is the value of the
  \<open>k\<close>-th call of \<open>rng.uniform(-0.5, 0.5)\<close> on the generator seeded with 42: the rows of
  \<open>w1\<close> are drawn first, then \<open>w2\<close>.
\<close>

definition NeuralController_init ::
  "nat \<Rightarrow> nat \<Rightarrow> real \<Rightarrow> Transition list \<Rightarrow> (nat \<Rightarrow> real) \<Rightarrow> NeuralController" where
  "NeuralController_init n_in n_hid rate mem draw =
     \<lparr>input_size = n_in, hidden_size = n_hid, lr = rate, memory = mem,
      w1 = map (\<lambda>i. map (\<lambda>j. draw (i * n_in + j)) [0..<n_in]) [0..<n_hid],
      b1 = replicate n_hid 0,
      w2 = map (\<lambda>i. draw (n_hid * n_in + i)) [0..<n_hid],
      b2 = 0\<rparr>"

definition sigmoid :: "real \<Rightarrow> real" where
  "sigmoid x = 1 / (1 + exp (- x))"

text \<open>
  The index reads of \<open>_forward\<close> that Python checks: \<open>forward_ok\<close> holds exactly when none
  of them is out of range. The generator expression of a hidden unit reads \<open>w1[i][j]\<close> and
  \<open>features[j]\<close> for every \<open>j\<close> below \<open>input_size\<close>, then \<open>b1[i]\<close> is read; the output sum
  reads \<open>w2[i]\<close>.
\<close>

definition forward_ok :: "NeuralController \<Rightarrow> real list \<Rightarrow> bool" where
  "forward_ok self feats \<longleftrightarrow>
     (\<forall>i < hidden_size self.
        i < length (b1 self) \<and> i < length (w2 self) \<and>
        (\<forall>j < input_size self.
           i < length (w1 self) \<and> j < length (w1 self ! i) \<and> j < length feats))"

text \<open>The pre-activation and the activation of hidden unit \<open>i\<close>.\<close>

definition hidden_sum :: "NeuralController \<Rightarrow> real list \<Rightarrow> nat \<Rightarrow> real" where
  "hidden_sum self feats i =
     (\<Sum>j\<leftarrow>[0..<input_size self]. w1 self ! i ! j * feats ! j) + b1 self ! i"

definition hidden_layer :: "NeuralController \<Rightarrow> real list \<Rightarrow> real list" where
  "hidden_layer self feats =
     map (\<lambda>i. sigmoid (hidden_sum self feats i)) [0..<hidden_size self]"

text \<open>\<open>_forward\<close>; IndexError is \<open>None\<close>.\<close>

definition forward :: "NeuralController \<Rightarrow> real list \<Rightarrow> (real \<times> real list) option" where
  "forward self feats =
     (if \<not> forward_ok self feats then None
      else (let h = hidden_layer self feats;
                raw = (\<Sum>i\<leftarrow>[0..<hidden_size self]. w2 self ! i * h ! i) + b2 self
            in Some (sigmoid raw, h)))"

definition encode :: "State \<Rightarrow> real list" where
  "encode state =
     (let ns = min 1 (real_of_int (st_queue_ns state) / 30);
          ew = min 1 (real_of_int (st_queue_ew state) / 30);
          ph = (if st_phase state = ''NS'' then 1 else 0);
          tod = (if st_time_of_day state = ''morning'' then 1
                 else if st_time_of_day state = ''afternoon'' then 0.5
                 else if st_time_of_day state = ''night'' then 0.2 else 0.5);
          emergency = (if st_emergency state then 1 else 0)
      in [ns, ew, ph, tod, emergency])"

text \<open>\<open>decide\<close>: the forward pass, then \<open>self.memory.append(...)\<close>.\<close>

definition NC_decide :: "State \<Rightarrow> NeuralController \<Rightarrow> (Decision \<times> NeuralController) option" where
  "NC_decide state self =
     (let feats = encode state
      in case forward self feats of None \<Rightarrow> None
         | Some (p, h) \<Rightarrow>
             Some (\<lparr>duration = 4 + 12 * p, target_phase = None,
                    explanation = Some (''Neural policy: queues NS/EW=(''
                       @ str_int (st_queue_ns state) @ '','' @ str_int (st_queue_ew state)
                       @ ''), time='' @ st_time_of_day state
                       @ '', emergency='' @ str_bool (st_emergency state))\<rparr>,
                   self\<lparr>memory := memory self @ [\<lparr>features = feats, pred_norm = p\<rparr>]\<rparr>))"

text \<open>
  The body of the loop over the hidden units in \<open>learn\<close>: \<open>w2[i]\<close> is updated first, and the
  gradient of the hidden unit is taken with the updated \<open>w2[i]\<close>.
\<close>

definition learn_unit ::
  "real list \<Rightarrow> real list \<Rightarrow> real \<Rightarrow> nat \<Rightarrow> NeuralController \<Rightarrow> NeuralController" where
  "learn_unit feats h grad_out i self =
     (let w2' = (w2 self)[i := w2 self ! i - lr self * grad_out * h ! i];
          grad_h = grad_out * w2' ! i * h ! i * (1 - h ! i);
          w1_i = fold (\<lambda>j r. r[j := r ! j - lr self * grad_h * feats ! j])
                   [0..<input_size self] (w1 self ! i);
          b1' = (b1 self)[i := b1 self ! i - lr self * grad_h]
      in self\<lparr>w2 := w2', w1 := (w1 self)[i := w1_i], b1 := b1'\<rparr>)"

text \<open>
  \<open>learn\<close>. The forward pass comes before any update, so an IndexError (\<open>None\<close>) leaves
  nothing half-written; the arguments \<open>state\<close> and \<open>next_state\<close> are not read.
\<close>

definition NC_learn ::
  "State \<Rightarrow> real \<Rightarrow> State \<Rightarrow> NeuralController \<Rightarrow> NeuralController option" where
  "NC_learn state reward next_state self =
     (if memory self = [] then Some self
      else (let feats = features (last (memory self))
            in case forward self feats of None \<Rightarrow> None
               | Some (p, h) \<Rightarrow>
                   (let reward_scaled = max (- 1) (min 1 (reward / 20));
                        target = max 0 (min 1 (p + 0.3 * reward_scaled));
                        err = p - target;
                        grad_out = err * p * (1 - p);
                        self1 = fold (learn_unit feats h grad_out) [0..<hidden_size self] self
                    in Some (self1\<lparr>b2 := b2 self1 - lr self1 * grad_out\<rparr>))))"

text \<open>A sequence of calls on one controller; it stops at the first exception.\<close>

datatype nc_call = Decide State | Learn State real State

fun NC_run :: "nc_call list \<Rightarrow> NeuralController \<Rightarrow> NeuralController option" where
  "NC_run [] self = Some self"
| "NC_run (Decide s # calls) self =
     (case NC_decide s self of None \<Rightarrow> None | Some (d, self') \<Rightarrow> NC_run calls self')"
| "NC_run (Learn s r s' # calls) self =
     (case NC_learn s r s' self of None \<Rightarrow> None | Some self' \<Rightarrow> NC_run calls self')"

text \<open>The states of the \<open>decide\<close> calls of a sequence, in order.\<close>

fun decide_states :: "nc_call list \<Rightarrow> State list" where
  "decide_states [] = []"
| "decide_states (Decide s # calls) = s # decide_states calls"
| "decide_states (Learn s r s' # calls) = decide_states calls"

subsection \<open>Auxiliary notions for the properties\<close>


text \<open>
  What the constructor establishes and \<open>decide\<close> and \<open>learn\<close> keep: there is an action,
  every value table has exactly the actions as its keys, and a recorded decision names a
  key of the Q-table and one of the actions.
\<close>

definition QL_inv :: "QLearningController \<Rightarrow> bool" where
  "QL_inv self \<longleftrightarrow>
     actions self \<noteq> []
     \<and> (\<forall>k tbl. q self k = Some tbl \<longrightarrow> fst ` set tbl = set (actions self))
     \<and> (\<forall>k a. last_decision self = Some (k, a) \<longrightarrow> q self k \<noteq> None \<and> a \<in> set (actions self))"



subsection \<open>Concrete inputs\<close>

text \<open>
  An intersection with the default service rate, one with a service rate of \<open>-1\<close> (the
  command line takes any integer), and arrivals without and with an emergency.
\<close>

definition ex_intersection :: Intersection where
  "ex_intersection = Intersection_init 0 1"

definition ex_intersection_neg_rate :: Intersection where
  "ex_intersection_neg_rate = Intersection_init 0 (- 1)"

definition ex_arrivals :: Arrivals where
  "ex_arrivals = \<lparr>arr_step = 0, arr_time_of_day = ''morning'', arrivals_ns = 5,
                  arrivals_ew = 2, arr_emergency = False\<rparr>"

definition ex_arrivals_emergency :: Arrivals where
  "ex_arrivals_emergency = \<lparr>arr_step = 1, arr_time_of_day = ''morning'', arrivals_ns = 3,
                            arrivals_ew = 9, arr_emergency = True\<rparr>"

text \<open>Decisions: a negative duration, the fixed plan's 12 seconds, 4.5 seconds, and 12 seconds with a target phase.\<close>

definition ex_decision_negative :: Decision where
  "ex_decision_negative = \<lparr>duration = - 3, target_phase = None, explanation = Some ''Manual plan.''\<rparr>"

definition ex_decision_fixed :: Decision where
  "ex_decision_fixed = \<lparr>duration = 12, target_phase = None,
                        explanation = Some ''Fixed plan based on time-of-day profile.''\<rparr>"

definition ex_decision_short :: Decision where
  "ex_decision_short = \<lparr>duration = 4.5, target_phase = None, explanation = None\<rparr>"

definition ex_decision_target :: Decision where
  "ex_decision_target = \<lparr>duration = 12, target_phase = Some ''NS'', explanation = None\<rparr>"

text \<open>
  A network of two intersections with the default service rate; ten vehicles arrive from
  the north-south approach of intersection 0 and none at intersection 1; both decisions
  are the fixed plan's 10 seconds.
\<close>

definition ex_network :: MultiIntersectionNetwork where
  "ex_network = MultiIntersectionNetwork_init 2 ''fixed'' 1"

definition ex_network_arrivals :: "Arrivals list" where
  "ex_network_arrivals =
     [\<lparr>arr_step = 0, arr_time_of_day = ''afternoon'', arrivals_ns = 10, arrivals_ew = 0,
       arr_emergency = False\<rparr>,
      \<lparr>arr_step = 0, arr_time_of_day = ''afternoon'', arrivals_ns = 0, arrivals_ew = 0,
       arr_emergency = False\<rparr>]"

definition ex_network_decisions :: "Decision list" where
  "ex_network_decisions =
     [\<lparr>duration = 10, target_phase = None,
       explanation = Some ''Fixed plan based on time-of-day profile.''\<rparr>,
      \<lparr>duration = 10, target_phase = None,
       explanation = Some ''Fixed plan based on time-of-day profile.''\<rparr>]"

text \<open>States as \<open>observe_state\<close> returns them, and the Q-learning controller after its first decision.\<close>

definition ex_state :: State where
  "ex_state = \<lparr>st_intersection = 0, st_queue_ns = 5, st_queue_ew = 2, st_phase = ''NS'',
               st_time_of_day = ''morning'', st_emergency = False\<rparr>"

definition ex_next_state :: State where
  "ex_next_state = \<lparr>st_intersection = 0, st_queue_ns = 0, st_queue_ew = 2, st_phase = ''EW'',
                    st_time_of_day = ''morning'', st_emergency = False\<rparr>"



text \<open>
  A neural controller with the default sizes and learning rate and an empty memory. Its
  weights stand for the draws of the seeded generator; the properties below do not depend
  on their values.
\<close>

definition ex_neural :: NeuralController where
  "ex_neural = NeuralController_init 5 6 0.01 [] (\<lambda>k. if even k then 1 / 4 else - 1 / 8)"

text \<open>The same controller after its first decision.\<close>

definition ex_neural_decided :: NeuralController where
  "ex_neural_decided = snd (the (NC_decide ex_state ex_neural))"

section \<open>Properties\<close>

lemmas ex_defs = ex_intersection_def ex_intersection_neg_rate_def ex_arrivals_def
  ex_arrivals_emergency_def ex_decision_negative_def ex_decision_fixed_def
  ex_decision_short_def ex_decision_target_def Intersection_init_def

lemmas step_defs = Intersection_step_def apply_emergency_def after_arrivals_def Let_def



subsection \<open>Emergency override\<close>

text \<open>
  C4. In a step whose arrivals carry the emergency flag, the phase used is the approach
  with the longer queue after the arrivals were added, north-south on a tie, whatever
  target phase the decision names; the duration used is the decision's duration raised to
  at least 5; and the explanation in the log is the decision's explanation followed by
  the separator and the fixed override note, so it contains the note.
\<close>
theorem emergency_override:
  assumes "arr_emergency a"
  shows "phase_used (fst (fst (Intersection_step a d s))) =
           (if queue_ew (after_arrivals a s) \<le> queue_ns (after_arrivals a s) then ''NS'' else ''EW'')
       \<and> log_duration (fst (fst (Intersection_step a d s))) = max 5 (duration d)
       \<and> log_explanation (fst (fst (Intersection_step a d s))) =
           (case explanation d of None \<Rightarrow> [] | Some e \<Rightarrow> e) @ '' | '' @ override_note
       \<and> sublist override_note (log_explanation (fst (fst (Intersection_step a d s))))"
proof -
  have non_empty: "override_note \<noteq> []"
    by (simp add: override_note_def)
  have e: "log_explanation (fst (fst (Intersection_step a d s))) =
           ((case explanation d of None \<Rightarrow> [] | Some e \<Rightarrow> e) @ '' | '') @ override_note @ []"
    using assms non_empty by (simp add: step_defs)
  have "sublist override_note (log_explanation (fst (fst (Intersection_step a d s))))"
    unfolding sublist_def e by blast
  with e assms show ?thesis
    by (simp add: step_defs)
qed

theorem emergency_override_witness:
  "arr_emergency ex_arrivals_emergency
   \<and> phase_used (fst (fst (Intersection_step ex_arrivals_emergency ex_decision_target ex_intersection))) = ''EW''
   \<and> log_duration (fst (fst (Intersection_step ex_arrivals_emergency ex_decision_short ex_intersection))) = 5"
proof -
  have e: "arr_emergency ex_arrivals_emergency"
    by (simp add: ex_defs)
  show ?thesis
    using e emergency_override [OF e, of ex_decision_target ex_intersection]
      emergency_override [OF e, of ex_decision_short ex_intersection]
    by (simp add: ex_defs after_arrivals_def)
qed

subsection \<open>Negative durations\<close>




subsection \<open>The queue and phase invariant\<close>

text \<open>
  C5. From a state with non-negative queues and a phase label of \<open>NS\<close> or \<open>EW\<close>, a step
  with non-negative arrivals, a non-negative duration and a target phase that is absent,
  \<open>NS\<close> or \<open>EW\<close> ends in such a state again; the queue lengths written to the log are
  those of the new state and are not negative.
\<close>
theorem step_preserves_invariant:
  assumes "Intersection_inv s" and "0 \<le> arrivals_ns a" and "0 \<le> arrivals_ew a"
    and "0 \<le> duration d"
    and "target_phase d = None \<or> target_phase d = Some ''NS'' \<or> target_phase d = Some ''EW''"
  shows "Intersection_inv (snd (Intersection_step a d s))
     \<and> 0 \<le> log_queue_ns (fst (fst (Intersection_step a d s)))
     \<and> 0 \<le> log_queue_ew (fst (fst (Intersection_step a d s)))
     \<and> log_queue_ns (fst (fst (Intersection_step a d s))) = queue_ns (snd (Intersection_step a d s))
     \<and> log_queue_ew (fst (fst (Intersection_step a d s))) = queue_ew (snd (Intersection_step a d s))"
  using assms
  by (auto simp: step_defs Intersection_inv_def)

theorem step_preserves_invariant_witness:
  "Intersection_inv ex_intersection \<and> 0 \<le> arrivals_ns ex_arrivals \<and> 0 \<le> arrivals_ew ex_arrivals
   \<and> 0 \<le> duration ex_decision_fixed
   \<and> Intersection_inv (snd (Intersection_step ex_arrivals ex_decision_fixed ex_intersection))"
proof -
  have h1: "Intersection_inv ex_intersection" by (simp add: ex_defs Intersection_inv_def)
  have h2: "0 \<le> arrivals_ns ex_arrivals" by (simp add: ex_defs)
  have h3: "0 \<le> arrivals_ew ex_arrivals" by (simp add: ex_defs)
  have h4: "0 \<le> duration ex_decision_fixed" by (simp add: ex_defs)
  have h5: "target_phase ex_decision_fixed = None \<or> target_phase ex_decision_fixed = Some ''NS''
            \<or> target_phase ex_decision_fixed = Some ''EW''" by (simp add: ex_defs)
  show ?thesis
    using step_preserves_invariant [OF h1 h2 h3 h4 h5] h1 h2 h3 h4 by simp
qed


subsection \<open>Bounds on the throughput\<close>




subsection \<open>The network step\<close>

text \<open>
  The first loop of the network step adds the list \<open>downstream_inflows\<close> while it still
  holds zeros, and the second loop only writes to it. So every intersection is stepped
  with its own arrivals and decision, whatever its upstream neighbour served.
\<close>

lemma add_inflow_zero:
  assumes "i < n"
  shows "add_inflow (replicate n 0) i arrivals = arrivals"
  using assms by (simp add: add_inflow_def)

lemma first_pass_identity:
  "k \<le> n \<Longrightarrow> fold (add_inflow (replicate n 0)) [0..<k] arrivals = arrivals"
  by (induction k) (simp_all add: add_inflow_zero)

lemma network_loop_state:
  assumes "k \<le> length inters"
  shows "\<exists>inflows.
     fold (network_iter arrivals decisions) [0..<k] (inters, [], Map.empty, inflows0) =
       (map (\<lambda>i. snd (Intersection_step (arrivals ! i) (decisions ! i) (inters ! i))) [0..<k]
          @ drop k inters,
        map (\<lambda>i. fst (fst (Intersection_step (arrivals ! i) (decisions ! i) (inters ! i)))) [0..<k],
        (\<lambda>i. if i < k
              then Some (snd (fst (Intersection_step (arrivals ! i) (decisions ! i) (inters ! i))))
              else None),
        inflows)"
  using assms
proof (induction k)
  case 0
  then show ?case by simp
next
  case (Suc k)
  let ?S = "\<lambda>i. Intersection_step (arrivals ! i) (decisions ! i) (inters ! i)"
  let ?pre = "map (\<lambda>i. snd (?S i)) [0..<k]"
  let ?logs = "\<lambda>k. map (\<lambda>i. fst (fst (?S i))) [0..<k]"
  let ?rew = "\<lambda>k i. if i < k then Some (snd (fst (?S i))) else None"
  from Suc have k: "k < length inters" by simp
  from Suc obtain inflows where
    st: "fold (network_iter arrivals decisions) [0..<k] (inters, [], Map.empty, inflows0) =
           (?pre @ drop k inters, ?logs k, ?rew k, inflows)"
    by auto
  have nth: "(?pre @ drop k inters) ! k = inters ! k"
    using k by (simp add: nth_append)
  have upd: "(?pre @ drop k inters)[k := v] = ?pre @ [v] @ drop (Suc k) inters" for v
    using k by (simp add: list_update_append Cons_nth_drop_Suc [symmetric])
  have rew: "(?rew k)(k \<mapsto> snd (fst (?S k))) = ?rew (Suc k)"
    by (auto simp: fun_eq_iff less_Suc_eq)
  have "\<exists>inflows'. network_iter arrivals decisions k (?pre @ drop k inters, ?logs k, ?rew k, inflows)
          = (map (\<lambda>i. snd (?S i)) [0..<Suc k] @ drop (Suc k) inters, ?logs (Suc k),
             ?rew (Suc k), inflows')"
    apply (simp only: network_iter_def prod.case)
    apply (simp only: nth)
    apply (simp only: case_prod_beta upd rew)
    apply simp
    done
  moreover have "fold (network_iter arrivals decisions) [0..<Suc k] (inters, [], Map.empty, inflows0)
          = network_iter arrivals decisions k (?pre @ drop k inters, ?logs k, ?rew k, inflows)"
    by (simp add: st)
  ultimately show ?case
    by (simp only:)
qed

lemma network_step_uncoupled:
  assumes "length (intersections net) \<le> length arrivals"
    and "length (intersections net) \<le> length decisions"
  shows "Network_step arrivals decisions net =
           Some ((map (\<lambda>i. fst (fst (Intersection_step (arrivals ! i) (decisions ! i)
                                   (intersections net ! i))))
                    [0..<length (intersections net)],
                  (\<lambda>i. if i < length (intersections net)
                        then Some (snd (fst (Intersection_step (arrivals ! i) (decisions ! i)
                                              (intersections net ! i))))
                        else None)),
                 net\<lparr>intersections :=
                       map (\<lambda>i. snd (Intersection_step (arrivals ! i) (decisions ! i)
                                      (intersections net ! i)))
                         [0..<length (intersections net)]\<rparr>)"
proof -
  obtain inflows where
    "fold (network_iter arrivals decisions) [0..<length (intersections net)]
        (intersections net, [], Map.empty, replicate (length (intersections net)) 0) =
       (map (\<lambda>i. snd (Intersection_step (arrivals ! i) (decisions ! i) (intersections net ! i)))
            [0..<length (intersections net)] @ drop (length (intersections net)) (intersections net),
        map (\<lambda>i. fst (fst (Intersection_step (arrivals ! i) (decisions ! i) (intersections net ! i))))
            [0..<length (intersections net)],
        (\<lambda>i. if i < length (intersections net)
              then Some (snd (fst (Intersection_step (arrivals ! i) (decisions ! i) (intersections net ! i))))
              else None),
        inflows)"
    using network_loop_state [of "length (intersections net)" "intersections net"] by blast
  with assms show ?thesis
    by (simp add: Network_step_def network_loop_def first_pass_identity Let_def)
qed

lemma upt_0_2: "[0..<2] = [0, Suc 0]"
  by (simp add: upt_rec numeral_2_eq_2)

lemma ex_network_intersections:
  "intersections ex_network = [Intersection_init 0 1, Intersection_init 1 1]"
  by (simp add: ex_network_def MultiIntersectionNetwork_init_def upt_0_2)

text \<open>
  C1 at a concrete input. Intersection 0 serves its ten arrivals, so its throughput is 10
  and 60 percent of it, rounded down, is 6. Intersection 1 has an empty north-south queue
  and no arrivals of its own; with an inflow of 6 added before its own step it would serve
  6 vehicles in its 10 seconds of north-south green. The code serves none there: the
  inflow is never added.
\<close>

theorem network_no_inflow:
  "Network_step ex_network_arrivals ex_network_decisions ex_network \<noteq> None
   \<and> throughput (fst (fst (the (Network_step ex_network_arrivals ex_network_decisions ex_network))) ! 0) = 10
   \<and> py_int (0.6 * real_of_int 10) = 6
   \<and> arrivals_ns (ex_network_arrivals ! 1) = 0
   \<and> queue_ns (intersections ex_network ! 1) = 0
   \<and> served_ns (fst (fst (the (Network_step ex_network_arrivals ex_network_decisions ex_network))) ! 1) = 0
   \<and> throughput (fst (fst (the (Network_step ex_network_arrivals ex_network_decisions ex_network))) ! 1) = 0
   \<and> phase_used (fst (fst (the (Network_step ex_network_arrivals ex_network_decisions ex_network))) ! 1) = ''NS''
   \<and> log_duration (fst (fst (the (Network_step ex_network_arrivals ex_network_decisions ex_network))) ! 1) = 10"
  by (simp add: Network_step_def network_loop_def network_iter_def add_inflow_def
      ex_network_intersections ex_network_arrivals_def ex_network_decisions_def
      Intersection_init_def step_defs py_int_def upt_0_2)

subsection \<open>The Q-learning controller\<close>

lemma optimistic_table_keys_aux:
  "fst ` set (fold (\<lambda>a d. AList.update a (f a) d) acts d0) = set acts \<union> fst ` set d0"
  by (induction acts arbitrary: d0) (auto simp: dom_update)

lemma optimistic_table_keys: "fst ` set (optimistic_table acts) = set acts"
  by (simp add: optimistic_table_def optimistic_table_keys_aux)



lemma max_value_Some:
  assumes "tbl \<noteq> []"
  shows "\<exists>m. max_value tbl = Some m"
  using assms by (cases tbl) auto

lemma ensure_state_fields:
  "actions (ensure_state k c) = actions c" "last_decision (ensure_state k c) = last_decision c"
  "alpha (ensure_state k c) = alpha c" "gamma (ensure_state k c) = gamma c"
  "q (ensure_state k c) k \<noteq> None"
  by (simp_all add: ensure_state_def)

lemma ensure_state_keeps:
  assumes "q c k' = Some tbl"
  shows "q (ensure_state k c) k' = Some tbl"
  using assms by (auto simp: ensure_state_def)

lemma ensure_state_inv:
  assumes "QL_inv c"
  shows "QL_inv (ensure_state k c)"
  using assms
  by (auto simp: QL_inv_def ensure_state_def optimistic_table_keys split: if_splits)






lemma QL_learn_result:
  assumes inv: "QL_inv c" and last: "last_decision c = Some (key, action)"
  shows "\<exists>tbl old ntbl nb.
           q c key = Some tbl \<and> map_of tbl action = Some old
         \<and> q (ensure_state (state_key ns c) c) (state_key ns c) = Some ntbl
         \<and> max_value ntbl = Some nb
         \<and> QL_learn s r ns c =
             Some ((ensure_state (state_key ns c) c)
                     \<lparr>q := (q (ensure_state (state_key ns c) c))
                              (key \<mapsto> AList.update action
                                        (old + alpha c * (r + gamma c * nb - old)) tbl)\<rparr>)"
proof -
  let ?nk = "state_key ns c"
  let ?c1 = "ensure_state ?nk c"
  have inv1: "QL_inv ?c1" using inv by (rule ensure_state_inv)
  from inv last have "q c key \<noteq> None" and act: "action \<in> set (actions c)"
    unfolding QL_inv_def by blast+
  then obtain tbl where tbl: "q c key = Some tbl" by auto
  then have tbl1: "q ?c1 key = Some tbl" by (rule ensure_state_keeps)
  have "fst ` set tbl = set (actions c)"
    using inv tbl unfolding QL_inv_def by blast
  with act have "action \<in> fst ` set tbl" by simp
  then obtain old where old: "map_of tbl action = Some old"
    by (metis domD dom_map_of_conv_image_fst)
  obtain ntbl where ntbl: "q ?c1 ?nk = Some ntbl"
    using ensure_state_fields(5) [of ?nk c] by auto
  have "fst ` set ntbl = set (actions ?c1)"
    using inv1 ntbl unfolding QL_inv_def by blast
  moreover have "actions ?c1 \<noteq> []"
    using inv1 by (simp add: QL_inv_def)
  ultimately have "ntbl \<noteq> []" by auto
  then obtain nb where nb: "max_value ntbl = Some nb"
    using max_value_Some by blast
  have "QL_learn s r ns c =
          Some (?c1\<lparr>q := (q ?c1)(key \<mapsto> AList.update action
                                        (old + alpha c * (r + gamma c * nb - old)) tbl)\<rparr>)"
    using last tbl1 old ntbl nb
    by (simp add: QL_learn_def Let_def ensure_state_fields)
  with tbl old ntbl nb show ?thesis by blast
qed

lemma QL_learn_inv:
  assumes "QL_inv c"
  shows "\<exists>c'. QL_learn s r ns c = Some c' \<and> QL_inv c' \<and> last_decision c' = last_decision c"
proof (cases "last_decision c")
  case None
  with assms show ?thesis by (simp add: QL_learn_def)
next
  case (Some ka)
  obtain key action where ka: "ka = (key, action)" by (cases ka)
  let ?c1 = "ensure_state (state_key ns c) c"
  from QL_learn_result [OF assms Some [unfolded ka], of ns s r]
  obtain tbl v where tbl: "q c key = Some tbl"
    and res: "QL_learn s r ns c = Some (?c1\<lparr>q := (q ?c1)(key \<mapsto> AList.update action v tbl)\<rparr>)"
    by blast
  have inv1: "QL_inv ?c1" using assms by (rule ensure_state_inv)
  have keys: "fst ` set tbl = set (actions c)"
    using assms tbl unfolding QL_inv_def by blast
  have act: "action \<in> set (actions c)"
    using assms Some ka unfolding QL_inv_def by blast
  have "fst ` set (AList.update action v tbl) = set (actions c)"
    using keys act by (auto simp: dom_update)
  with inv1 have "QL_inv (?c1\<lparr>q := (q ?c1)(key \<mapsto> AList.update action v tbl)\<rparr>)"
    by (auto simp: QL_inv_def ensure_state_fields)
  with res show ?thesis
    by (simp add: ensure_state_fields)
qed





text \<open>
  C9. \<open>learn\<close> does not read its \<open>state\<close> argument: for the same controller, reward
  and next state, two calls with different states give the same result, be it the new
  controller or the exception.
\<close>
theorem learn_ignores_state:
  "QL_learn s1 r ns c = QL_learn s2 r ns c"
  by (simp add: QL_learn_def)

subsection \<open>The neural controller\<close>

lemma sigmoid_pos: "0 < sigmoid x"
  by (simp add: sigmoid_def add_pos_pos)

lemma sigmoid_less_1: "sigmoid x < 1"
  by (simp add: sigmoid_def add_pos_pos)


lemma length_encode: "length (encode s) = 5"
  by (simp add: encode_def Let_def)

lemma forward_ok_memory: "forward_ok (c\<lparr>memory := m\<rparr>) feats = forward_ok c feats"
  by (simp add: forward_ok_def)

lemma forward_memory: "forward (c\<lparr>memory := m\<rparr>) feats = forward c feats"
  by (simp add: forward_def forward_ok_memory hidden_layer_def hidden_sum_def)

lemma init_forward_ok:
  assumes "n_in \<le> length feats"
  shows "forward_ok (NeuralController_init n_in n_hid rate mem draw) feats"
  using assms by (simp add: forward_ok_def NeuralController_init_def)

lemma ex_neural_ok: "forward_ok ex_neural (encode s)"
  unfolding ex_neural_def by (rule init_forward_ok) (simp add: length_encode)

lemma NC_decide_appends:
  assumes "forward_ok c (encode s)"
  shows "\<exists>d p h. forward c (encode s) = Some (p, h) \<and> duration d = 4 + 12 * p
           \<and> NC_decide s c = Some (d, c\<lparr>memory := memory c @ [\<lparr>features = encode s, pred_norm = p\<rparr>]\<rparr>)"
  using assms by (simp add: NC_decide_def forward_def Let_def)

lemma NC_decide_memory:
  assumes "NC_decide s c = Some (d, c')"
  shows "memory c' = memory c @ [\<lparr>features = encode s, pred_norm = (duration d - 4) / 12\<rparr>]"
  using assms by (auto simp: NC_decide_def Let_def split: option.splits)

lemma learn_unit_memory: "memory (learn_unit feats h g i c) = memory c"
  by (simp add: learn_unit_def Let_def)

lemma learn_loop_memory: "memory (fold (learn_unit feats h g) is c) = memory c"
  by (induction "is" arbitrary: c) (simp_all add: learn_unit_memory)

lemma NC_learn_memory:
  assumes "NC_learn s r ns c = Some c'"
  shows "memory c' = memory c"
  using assms
  by (auto simp: NC_learn_def Let_def learn_loop_memory split: if_splits option.splits)

lemma ex_neural_memory: "memory ex_neural = []"
  by (simp add: ex_neural_def NeuralController_init_def)

lemma ex_neural_run:
  "\<exists>t1 t2. NC_run [Decide ex_state, Decide ex_next_state] ex_neural
             = Some (ex_neural\<lparr>memory := [t1, t2]\<rparr>)"
proof -
  from NC_decide_appends [OF ex_neural_ok [of ex_state]]
  obtain d1 t1 where d1: "NC_decide ex_state ex_neural = Some (d1, ex_neural\<lparr>memory := [t1]\<rparr>)"
    unfolding ex_neural_memory by auto
  let ?c1 = "ex_neural\<lparr>memory := [t1]\<rparr>"
  have "forward_ok ?c1 (encode ex_next_state)"
    by (simp add: forward_ok_memory ex_neural_ok)
  from NC_decide_appends [OF this]
  obtain d2 t2 where d2: "NC_decide ex_next_state ?c1 = Some (d2, ?c1\<lparr>memory := [t1, t2]\<rparr>)"
    by auto
  have "NC_run [Decide ex_state, Decide ex_next_state] ex_neural
          = Some (ex_neural\<lparr>memory := [t1, t2]\<rparr>)"
    by (simp add: d1 d2)
  then show ?thesis by blast
qed

text \<open>
  C3, as stated, fails: \<open>decide\<close> appends to \<open>memory\<close> and nothing ever removes an entry.
  A controller that starts with an empty memory holds two records after two decisions.
\<close>

theorem memory_single_counterexample:
  "NC_run [Decide ex_state, Decide ex_next_state] ex_neural \<noteq> None
   \<and> memory ex_neural = []
   \<and> length (memory (the (NC_run [Decide ex_state, Decide ex_next_state] ex_neural))) = 2"
  using ex_neural_run ex_neural_memory by auto

text \<open>
  C3, amended. Every \<open>decide\<close> appends one record to \<open>memory\<close> and \<open>learn\<close> leaves
  \<open>memory\<close> as it is. So after a sequence of calls that all return, the memory is the
  initial one followed by one record for each \<open>decide\<close> of the sequence, in the order of
  the calls and each with the features of its state; the last record, which \<open>learn\<close>
  reads, is the one of the most recent \<open>decide\<close>.
\<close>

theorem memory_grows:
  assumes "NC_run calls c = Some c'"
  shows "prefix (memory c) (memory c')
       \<and> map features (memory c') = map features (memory c) @ map encode (decide_states calls)
       \<and> length (memory c') = length (memory c) + length (decide_states calls)"
  using assms
proof (induction calls arbitrary: c)
  case Nil
  then show ?case by simp
next
  case (Cons call calls)
  show ?case
  proof (cases call)
    case (Decide s)
    with Cons.prems obtain d c1 where d: "NC_decide s c = Some (d, c1)"
      and run: "NC_run calls c1 = Some c'"
      by (auto split: option.splits)
    from NC_decide_memory [OF d] obtain t where m: "memory c1 = memory c @ [t]"
      and t: "features t = encode s"
      by auto
    from Cons.IH [OF run] m t Decide show ?thesis
      by (auto dest: append_prefixD)
  next
    case (Learn s r s')
    with Cons.prems obtain c1 where l: "NC_learn s r s' c = Some c1"
      and run: "NC_run calls c1 = Some c'"
      by (auto split: option.splits)
    from Cons.IH [OF run] NC_learn_memory [OF l] Learn show ?thesis
      by simp
  qed
qed

theorem memory_grows_witness:
  "NC_run [Decide ex_state, Decide ex_next_state] ex_neural \<noteq> None
   \<and> map features (memory (the (NC_run [Decide ex_state, Decide ex_next_state] ex_neural)))
        = [encode ex_state, encode ex_next_state]"
proof -
  obtain c' where r: "NC_run [Decide ex_state, Decide ex_next_state] ex_neural = Some c'"
    using ex_neural_run by auto
  from memory_grows [OF r] r show ?thesis
    by (simp add: ex_neural_memory)
qed

lemma learn_unit_zero: "learn_unit feats h 0 i c = c"
proof -
  have "fold (\<lambda>j r. r[j := r ! j - lr c * 0 * feats ! j]) js row = row" for js and row :: "real list"
    by (induction js) simp_all
  then show ?thesis
    by (simp add: learn_unit_def)
qed

lemma learn_loop_zero: "fold (learn_unit feats h 0) is c = c"
  by (induction "is") (simp_all add: learn_unit_zero)

text \<open>
  C10. With a non-empty memory whose last record the forward pass accepts, \<open>learn\<close> with
  a reward of 0 returns and leaves \<open>w1\<close>, \<open>b1\<close>, \<open>w2\<close> and \<open>b2\<close> unchanged: the target
  is the recomputed prediction, so the error and every gradient are 0.
\<close>
theorem zero_reward_keeps_weights:
  assumes "memory c \<noteq> []" and "forward_ok c (features (last (memory c)))"
  shows "\<exists>c'. NC_learn s 0 ns c = Some c'
           \<and> w1 c' = w1 c \<and> b1 c' = b1 c \<and> w2 c' = w2 c \<and> b2 c' = b2 c"
proof -
  let ?f = "features (last (memory c))"
  from assms(2) obtain p h where fw: "forward c ?f = Some (p, h)" and p: "0 < p" "p < 1"
    by (auto simp: forward_def Let_def sigmoid_pos sigmoid_less_1)
  have target: "max 0 (min 1 p) = p"
    using p by simp
  have "NC_learn s 0 ns c = Some c"
    using assms(1) fw by (simp add: NC_learn_def Let_def target learn_loop_zero)
  then show ?thesis by simp
qed

lemma ex_neural_decided_eval:
  "memory ex_neural_decided \<noteq> []"
  "features (last (memory ex_neural_decided)) = encode ex_state"
  "forward_ok ex_neural_decided (encode ex_state)"
  "lr ex_neural_decided = 0.01"
proof -
  from NC_decide_appends [OF ex_neural_ok [of ex_state]]
  obtain d t where d: "NC_decide ex_state ex_neural = Some (d, ex_neural\<lparr>memory := memory ex_neural @ [t]\<rparr>)"
    and t: "features t = encode ex_state"
    by auto
  then have e: "ex_neural_decided = ex_neural\<lparr>memory := memory ex_neural @ [t]\<rparr>"
    by (simp add: ex_neural_decided_def)
  show "memory ex_neural_decided \<noteq> []"
    by (simp add: e)
  show "features (last (memory ex_neural_decided)) = encode ex_state"
    by (simp add: e t)
  show "forward_ok ex_neural_decided (encode ex_state)"
    by (simp add: e forward_ok_memory ex_neural_ok)
  show "lr ex_neural_decided = 0.01"
    by (simp add: e ex_neural_def NeuralController_init_def)
qed

theorem zero_reward_keeps_weights_witness:
  "memory ex_neural_decided \<noteq> []
   \<and> forward_ok ex_neural_decided (features (last (memory ex_neural_decided)))
   \<and> NC_learn ex_state 0 ex_next_state ex_neural_decided \<noteq> None
   \<and> w2 (the (NC_learn ex_state 0 ex_next_state ex_neural_decided)) = w2 ex_neural_decided
   \<and> b2 (the (NC_learn ex_state 0 ex_next_state ex_neural_decided)) = b2 ex_neural_decided"
proof -
  have h1: "memory ex_neural_decided \<noteq> []"
    by (rule ex_neural_decided_eval)
  have h2: "forward_ok ex_neural_decided (features (last (memory ex_neural_decided)))"
    by (simp add: ex_neural_decided_eval)
  show ?thesis
    using zero_reward_keeps_weights [OF h1 h2, of ex_state ex_next_state] h1 h2 by auto
qed

subsection \<open>One learning step of the neural controller\<close>






















end
